theory Spec2Isabelle
  imports Complex_Main "HOL-Library.Word" "HOL-Library.Sublist"
begin

section \<open>Data model of backend/progress.go\<close>

text \<open>
  Go's \<open>int64\<close> is a 64-bit word read as two's complement (\<open>sint\<close>); \<open>+\<close> and \<open>-\<close>
  wrap. Go's \<open>int\<close> is taken at its 64-bit width. A \<open>float64\<close> is idealised as a
  real number: the statements below depend on which branch is taken, on which field
  is overwritten and on the order of the additions, never on rounding.
  A Go \<open>string\<close> is a \<open>string\<close>; the empty string is \<open>[]\<close>. An \<open>error\<close> is
  \<open>None\<close> for \<open>nil\<close> and \<open>Some msg\<close> otherwise.
  \<open>time.Now()\<close> is an input: every function that reads the clock takes the reading
  as an argument.
\<close>

type_synonym int64 = "64 word"
type_synonym float64 = real
type_synonym error = "string option"
type_synonym byte = "8 word"

datatype DownloadStatus =
    StatusQueued
  | StatusDownloading
  | StatusCompleted
  | StatusFailed
  | StatusSkipped

record DownloadItem =
  ID :: string
  TrackName :: string
  ArtistName :: string
  AlbumName :: string
  SpotifyID :: string
  Status :: DownloadStatus
  Progress :: float64
  TotalSize :: float64
  Speed :: float64
  StartTime :: int64
  EndTime :: int64
  ErrorMessage :: string
  FilePath :: string

text \<open>
  The package-level variables. The mutexes are left out: every function below is
  one sequential run of its Go body.
\<close>

record globals =
  currentProgress :: float64
  activeDownloads :: int64
  currentSpeed :: float64
  downloadQueue :: "DownloadItem list"
  currentItemID :: string
  totalDownloaded :: float64
  sessionStartTime :: int64

text \<open>The state of the package when the program starts: every variable at its zero value.\<close>

definition initial_globals :: globals where
  "initial_globals =
     \<lparr> currentProgress = 0, activeDownloads = 0, currentSpeed = 0, downloadQueue = [],
       currentItemID = [], totalDownloaded = 0, sessionStartTime = 0 \<rparr>"

record ProgressInfo =
  IsDownloading :: bool
  MBDownloaded :: float64
  SpeedMBps :: float64

record DownloadQueueInfo =
  QueueIsDownloading :: bool
  Queue :: "DownloadItem list"
  CurrentSpeed :: float64
  TotalDownloaded :: float64
  SessionStartTime :: int64
  QueuedCount :: int
  CompletedCount :: int
  FailedCount :: int
  SkippedCount :: int

section \<open>Active-count tracker and the shared aggregates\<close>

definition GetDownloadProgress :: "globals \<Rightarrow> ProgressInfo" where
  "GetDownloadProgress g =
     \<lparr> IsDownloading = (0 < sint (activeDownloads g)),
       MBDownloaded = currentProgress g,
       SpeedMBps = currentSpeed g \<rparr>"

definition SetDownloadSpeed :: "float64 \<Rightarrow> globals \<Rightarrow> globals" where
  "SetDownloadSpeed mbps g = g\<lparr>currentSpeed := mbps\<rparr>"

definition SetDownloadProgress :: "float64 \<Rightarrow> globals \<Rightarrow> globals" where
  "SetDownloadProgress mbDownloaded g = g\<lparr>currentProgress := mbDownloaded\<rparr>"

text \<open>
  \<open>atomic.AddInt64\<close> returns the new value; the decrement stores 0 and resets the two
  aggregates when that value is not positive.
\<close>

definition SetDownloading :: "bool \<Rightarrow> globals \<Rightarrow> globals" where
  "SetDownloading downloading g =
     (if downloading then g\<lparr>activeDownloads := activeDownloads g + 1\<rparr>
      else
        (let g1 = g\<lparr>activeDownloads := activeDownloads g - 1\<rparr>
         in if sint (activeDownloads g1) \<le> 0
            then SetDownloadSpeed 0 (SetDownloadProgress 0 (g1\<lparr>activeDownloads := 0\<rparr>))
            else g1))"

section \<open>Download queue store\<close>

definition AddToQueue ::
  "string \<Rightarrow> string \<Rightarrow> string \<Rightarrow> string \<Rightarrow> string \<Rightarrow> int64 \<Rightarrow> globals \<Rightarrow> globals" where
  "AddToQueue id' trackName artistName albumName spotifyID now g =
     (let item = \<lparr> ID = id', TrackName = trackName, ArtistName = artistName,
                   AlbumName = albumName, SpotifyID = spotifyID, Status = StatusQueued,
                   Progress = 0, TotalSize = 0, Speed = 0, StartTime = 0, EndTime = 0,
                   ErrorMessage = [], FilePath = [] \<rparr>;
          g1 = g\<lparr>downloadQueue := downloadQueue g @ [item]\<rparr>
      in if sessionStartTime g1 = 0 then g1\<lparr>sessionStartTime := now\<rparr> else g1)"

text \<open>
  The loop shared by the id-keyed operations:
  \<^verbatim>\<open>for i := range downloadQueue { if downloadQueue[i].ID == id { ...; break } }\<close>
  The body \<open>f\<close> is applied to the first record whose ID matches and the scan stops.
\<close>

fun scan_by_id ::
  "string \<Rightarrow> (DownloadItem \<Rightarrow> DownloadItem) \<Rightarrow> DownloadItem list \<Rightarrow> DownloadItem list" where
  "scan_by_id id' f [] = []"
| "scan_by_id id' f (item # rest) =
     (if ID item = id' then f item # rest else item # scan_by_id id' f rest)"

definition StartDownloadItem :: "string \<Rightarrow> int64 \<Rightarrow> globals \<Rightarrow> globals" where
  "StartDownloadItem id' now g =
     (let g1 = g\<lparr>downloadQueue :=
                 scan_by_id id'
                   (\<lambda>item. item\<lparr>Status := StatusDownloading, StartTime := now, Progress := 0\<rparr>)
                   (downloadQueue g)\<rparr>
      in g1\<lparr>currentItemID := id'\<rparr>)"

definition UpdateItemProgress :: "string \<Rightarrow> float64 \<Rightarrow> float64 \<Rightarrow> globals \<Rightarrow> globals" where
  "UpdateItemProgress id' progress speed g =
     g\<lparr>downloadQueue :=
         scan_by_id id' (\<lambda>item. item\<lparr>Progress := progress, Speed := speed\<rparr>)
           (downloadQueue g)\<rparr>"

definition GetCurrentItemID :: "globals \<Rightarrow> string" where
  "GetCurrentItemID g = currentItemID g"

text \<open>
  The loop of \<open>CompleteDownloadItem\<close> also adds \<open>finalSize\<close> to \<open>totalDownloaded\<close>,
  inside the branch of the matching record: it returns the queue and the total.
\<close>

fun complete_scan ::
  "string \<Rightarrow> string \<Rightarrow> float64 \<Rightarrow> int64 \<Rightarrow> DownloadItem list \<Rightarrow> float64 \<Rightarrow>
   DownloadItem list \<times> float64" where
  "complete_scan id' filePath finalSize now [] total' = ([], total')"
| "complete_scan id' filePath finalSize now (item # rest) total' =
     (if ID item = id'
      then (item\<lparr>Status := StatusCompleted, EndTime := now, FilePath := filePath,
                 Progress := finalSize, TotalSize := finalSize\<rparr> # rest,
            total' + finalSize)
      else (case complete_scan id' filePath finalSize now rest total' of
              (rest', t) \<Rightarrow> (item # rest', t)))"

definition CompleteDownloadItem ::
  "string \<Rightarrow> string \<Rightarrow> float64 \<Rightarrow> int64 \<Rightarrow> globals \<Rightarrow> globals" where
  "CompleteDownloadItem id' filePath finalSize now g =
     (case complete_scan id' filePath finalSize now (downloadQueue g) (totalDownloaded g) of
        (q, t) \<Rightarrow> g\<lparr>downloadQueue := q, totalDownloaded := t\<rparr>)"

definition FailDownloadItem :: "string \<Rightarrow> string \<Rightarrow> int64 \<Rightarrow> globals \<Rightarrow> globals" where
  "FailDownloadItem id' errorMsg now g =
     g\<lparr>downloadQueue :=
         scan_by_id id'
           (\<lambda>item. item\<lparr>Status := StatusFailed, EndTime := now, ErrorMessage := errorMsg\<rparr>)
           (downloadQueue g)\<rparr>"

definition SkipDownloadItem :: "string \<Rightarrow> string \<Rightarrow> int64 \<Rightarrow> globals \<Rightarrow> globals" where
  "SkipDownloadItem id' filePath now g =
     g\<lparr>downloadQueue :=
         scan_by_id id'
           (\<lambda>item. item\<lparr>Status := StatusSkipped, EndTime := now, FilePath := filePath\<rparr>)
           (downloadQueue g)\<rparr>"

text \<open>The loop of \<open>ResetSessionIfComplete\<close>: it breaks at the first pending record.\<close>

fun hasActiveOrQueued :: "DownloadItem list \<Rightarrow> bool" where
  "hasActiveOrQueued [] = False"
| "hasActiveOrQueued (item # rest) =
     (if Status item = StatusQueued \<or> Status item = StatusDownloading then True
      else hasActiveOrQueued rest)"

definition ResetSessionIfComplete :: "globals \<Rightarrow> globals" where
  "ResetSessionIfComplete g =
     (if \<not> hasActiveOrQueued (downloadQueue g)
      then g\<lparr>sessionStartTime := 0, totalDownloaded := 0\<rparr>
      else g)"

text \<open>The counting loop of \<open>GetDownloadQueue\<close>: queued, completed, failed, skipped.\<close>

fun count_statuses :: "DownloadItem list \<Rightarrow> int \<times> int \<times> int \<times> int \<Rightarrow> int \<times> int \<times> int \<times> int" where
  "count_statuses [] c = c"
| "count_statuses (item # rest) (queued, completed, failed, skipped) =
     count_statuses rest
       (case Status item of
          StatusQueued \<Rightarrow> (queued + 1, completed, failed, skipped)
        | StatusCompleted \<Rightarrow> (queued, completed + 1, failed, skipped)
        | StatusFailed \<Rightarrow> (queued, completed, failed + 1, skipped)
        | StatusSkipped \<Rightarrow> (queued, completed, failed, skipped + 1)
        | StatusDownloading \<Rightarrow> (queued, completed, failed, skipped))"

definition GetDownloadQueue :: "globals \<Rightarrow> DownloadQueueInfo \<times> globals" where
  "GetDownloadQueue g =
     (let g1 = ResetSessionIfComplete g
      in case count_statuses (downloadQueue g1) (0, 0, 0, 0) of
           (queued, completed, failed, skipped) \<Rightarrow>
             (\<lparr> QueueIsDownloading = (0 < sint (activeDownloads g1)),
                Queue = downloadQueue g1,
                CurrentSpeed = currentSpeed g1,
                TotalDownloaded = totalDownloaded g1,
                SessionStartTime = sessionStartTime g1,
                QueuedCount = queued, CompletedCount = completed,
                FailedCount = failed, SkippedCount = skipped \<rparr>, g1))"

text \<open>The loop of \<open>ClearDownloadQueue\<close> appends the kept records to \<open>newQueue\<close>.\<close>

fun clear_scan :: "DownloadItem list \<Rightarrow> DownloadItem list \<Rightarrow> DownloadItem list" where
  "clear_scan newQueue [] = newQueue"
| "clear_scan newQueue (item # rest) =
     clear_scan
       (if Status item = StatusQueued \<or> Status item = StatusDownloading
        then newQueue @ [item] else newQueue)
       rest"

definition ClearDownloadQueue :: "globals \<Rightarrow> globals" where
  "ClearDownloadQueue g = g\<lparr>downloadQueue := clear_scan [] (downloadQueue g)\<rparr>"

definition ClearAllDownloads :: "globals \<Rightarrow> globals" where
  "ClearAllDownloads g =
     SetDownloadSpeed 0 (SetDownloadProgress 0
       (g\<lparr>downloadQueue := [], totalDownloaded := 0, sessionStartTime := 0,
          currentItemID := []\<rparr>))"

text \<open>
  The loop of \<open>CancelAllQueuedItems\<close> reads the clock once for every Queued record:
  \<open>clock i\<close> is the reading taken at index \<open>i\<close>.
\<close>

fun cancel_scan :: "(nat \<Rightarrow> int64) \<Rightarrow> nat \<Rightarrow> DownloadItem list \<Rightarrow> DownloadItem list" where
  "cancel_scan clock i [] = []"
| "cancel_scan clock i (item # rest) =
     (if Status item = StatusQueued
      then item\<lparr>Status := StatusSkipped, EndTime := clock i, ErrorMessage := ''Cancelled''\<rparr>
      else item) # cancel_scan clock (Suc i) rest"

definition CancelAllQueuedItems :: "(nat \<Rightarrow> int64) \<Rightarrow> globals \<Rightarrow> globals" where
  "CancelAllQueuedItems clock g =
     g\<lparr>downloadQueue := cancel_scan clock 0 (downloadQueue g)\<rparr>"

section \<open>Progress sampler\<close>

text \<open>
  The wrapped \<open>io.Writer\<close> is a sink state \<open>'w\<close> together with its \<open>Write\<close> method,
  which returns the byte count, the error and the sink's next state. Nothing is
  assumed of the method: it may return any count with any error.
\<close>

type_synonym 'w io_Writer = "'w \<Rightarrow> byte list \<Rightarrow> (int64 \<times> error) \<times> 'w"

record 'w ProgressWriter =
  writer :: 'w
  total :: int64
  lastPrinted :: int64
  startTime :: int64
  lastTime :: int64
  lastBytes :: int64
  itemID :: string

definition NewProgressWriter :: "'w \<Rightarrow> int64 \<Rightarrow> 'w ProgressWriter" where
  "NewProgressWriter w now =
     \<lparr> writer = w, total = 0, lastPrinted = 0, startTime = now, lastTime = now,
       lastBytes = 0, itemID = [] \<rparr>"

definition NewProgressWriterWithID :: "'w \<Rightarrow> string \<Rightarrow> int64 \<Rightarrow> 'w ProgressWriter" where
  "NewProgressWriterWithID w itemID' now = (NewProgressWriter w now)\<lparr>itemID := itemID'\<rparr>"

text \<open>
  What one \<open>Write\<close> publishes to the package state, in the order of the calls it
  makes. The line printed to standard output is left out.
\<close>

datatype publication =
    PublishedSpeed float64
  | PublishedProgress float64
  | PublishedItem string float64 float64

text \<open>
  \<open>Write\<close> returns the sink's result, the publications it made, the sampler and the
  package state. \<open>now\<close> is the reading of \<open>getCurrentTimeMillis\<close>, which is taken
  only inside the sampling branch. The test \<open>timeDiff > 0\<close> is exact under the
  idealisation: the float64 quotient of an int64 by 1000 is positive just when the
  int64 is.
\<close>

definition Write ::
  "'w io_Writer \<Rightarrow> int64 \<Rightarrow> 'w ProgressWriter \<Rightarrow> byte list \<Rightarrow> globals \<Rightarrow>
   (int64 \<times> error) \<times> publication list \<times> 'w ProgressWriter \<times> globals" where
  "Write sink_Write now pw p g =
     (case sink_Write (writer pw) p of
        ((n, err), w') \<Rightarrow>
          (let pw1 = pw\<lparr>writer := w', total := total pw + n\<rparr>
           in if 256 * 1024 \<le> sint (total pw1 - lastPrinted pw1)
              then
                (let mbDownloaded = real_of_int (sint (total pw1)) / (1024 * 1024);
                     timeDiff = real_of_int (sint (now - lastTime pw1)) / 1000;
                     bytesDiff = real_of_int (sint (total pw1 - lastBytes pw1));
                     speedMBps = (if timeDiff > 0 then (bytesDiff / (1024 * 1024)) / timeDiff
                                  else 0);
                     pubs1 = (if timeDiff > 0 then [PublishedSpeed speedMBps] else []);
                     g1 = (if timeDiff > 0 then SetDownloadSpeed speedMBps g else g);
                     pubs2 = pubs1 @ [PublishedProgress mbDownloaded];
                     g2 = SetDownloadProgress mbDownloaded g1;
                     pubs3 = (if itemID pw1 \<noteq> []
                              then pubs2 @ [PublishedItem (itemID pw1) mbDownloaded speedMBps]
                              else pubs2);
                     g3 = (if itemID pw1 \<noteq> []
                           then UpdateItemProgress (itemID pw1) mbDownloaded speedMBps g2
                           else g2)
                 in ((n, err), pubs3,
                     pw1\<lparr>lastPrinted := total pw1, lastTime := now, lastBytes := total pw1\<rparr>,
                     g3))
              else ((n, err), [], pw1, g)))"

definition GetTotal :: "'w ProgressWriter \<Rightarrow> int64" where
  "GetTotal pw = total pw"

text \<open>
  A stream fed to the sampler: one \<open>Write\<close> per chunk, each with the clock reading
  of that call. The results of all the writes and all the publications are collected.
\<close>

fun feed ::
  "'w io_Writer \<Rightarrow> (byte list \<times> int64) list \<Rightarrow> 'w ProgressWriter \<Rightarrow> globals \<Rightarrow>
   (int64 \<times> error) list \<times> publication list \<times> 'w ProgressWriter \<times> globals" where
  "feed sink_Write [] pw g = ([], [], pw, g)"
| "feed sink_Write ((p, now) # rest) pw g =
     (case Write sink_Write now pw p g of
        (r, pubs, pw1, g1) \<Rightarrow>
          (case feed sink_Write rest pw1 g1 of
             (rs, pubs', pw2, g2) \<Rightarrow> (r # rs, pubs @ pubs', pw2, g2)))"

text \<open>The same chunks written to the sink itself, with no sampler in between.\<close>

fun feed_sink :: "'w io_Writer \<Rightarrow> byte list list \<Rightarrow> 'w \<Rightarrow> (int64 \<times> error) list \<times> 'w" where
  "feed_sink sink_Write [] w = ([], w)"
| "feed_sink sink_Write (p # rest) w =
     (case sink_Write w p of
        (r, w1) \<Rightarrow> (case feed_sink sink_Write rest w1 of (rs, w2) \<Rightarrow> (r # rs, w2)))"

fun is_speed :: "publication \<Rightarrow> bool" where
  "is_speed (PublishedSpeed v) = True"
| "is_speed (PublishedProgress v) = False"
| "is_speed (PublishedItem i v s) = False"

text \<open>A sink that accepts every buffer in full and keeps the bytes it was given.\<close>

definition full_sink :: "(byte list) io_Writer" where
  "full_sink w p = ((word_of_nat (length p), None), w @ p)"

text \<open>A sink that accepts at most \<open>k\<close> bytes of a buffer and fails when it cut one short.\<close>

definition short_sink :: "nat \<Rightarrow> (byte list) io_Writer" where
  "short_sink k w p =
     (if length p \<le> k then ((word_of_nat (length p), None), w @ p)
      else ((word_of_nat k, Some ''short write''), w @ take k p))"

section \<open>Sequences of calls on the store\<close>

datatype call =
    Enqueue string string string string string int64
  | Start string int64
  | UpdateProgress string float64 float64
  | Complete string string float64 int64
  | Fail string string int64
  | Skip string string int64
  | CancelAllQueued "nat \<Rightarrow> int64"
  | Snapshot
  | ResetSession
  | ClearTerminal
  | ClearAll
  | SetActive bool
  | SetSpeed float64
  | SetProgress float64

fun apply_call :: "call \<Rightarrow> globals \<Rightarrow> globals" where
  "apply_call (Enqueue i t a b s now) g = AddToQueue i t a b s now g"
| "apply_call (Start i now) g = StartDownloadItem i now g"
| "apply_call (UpdateProgress i p s) g = UpdateItemProgress i p s g"
| "apply_call (Complete i f z now) g = CompleteDownloadItem i f z now g"
| "apply_call (Fail i m now) g = FailDownloadItem i m now g"
| "apply_call (Skip i f now) g = SkipDownloadItem i f now g"
| "apply_call (CancelAllQueued clock) g = CancelAllQueuedItems clock g"
| "apply_call Snapshot g = snd (GetDownloadQueue g)"
| "apply_call ResetSession g = ResetSessionIfComplete g"
| "apply_call ClearTerminal g = ClearDownloadQueue g"
| "apply_call ClearAll g = ClearAllDownloads g"
| "apply_call (SetActive b) g = SetDownloading b g"
| "apply_call (SetSpeed v) g = SetDownloadSpeed v g"
| "apply_call (SetProgress v) g = SetDownloadProgress v g"

fun run :: "call list \<Rightarrow> globals \<Rightarrow> globals" where
  "run [] g = g"
| "run (c # cs) g = run cs (apply_call c g)"

text \<open>The calls of an item's life cycle: the ones that never remove a record.\<close>

fun lifecycle :: "call \<Rightarrow> bool" where
  "lifecycle (Enqueue i t a b s now) = True"
| "lifecycle (Start i now) = True"
| "lifecycle (UpdateProgress i p s) = True"
| "lifecycle (Complete i f z now) = True"
| "lifecycle (Fail i m now) = True"
| "lifecycle (Skip i f now) = True"
| "lifecycle (CancelAllQueued clock) = True"
| "lifecycle c = False"

text \<open>
  A call resets the session when it is \<open>clearAll\<close>, or a snapshot or
  \<open>ResetSessionIfComplete\<close> that finds no Queued or Downloading record.
\<close>

fun is_reset :: "call \<Rightarrow> globals \<Rightarrow> bool" where
  "is_reset ClearAll g = True"
| "is_reset Snapshot g = (\<not> hasActiveOrQueued (downloadQueue g))"
| "is_reset ResetSession g = (\<not> hasActiveOrQueued (downloadQueue g))"
| "is_reset c g = False"

fun no_reset :: "call list \<Rightarrow> globals \<Rightarrow> bool" where
  "no_reset [] g = True"
| "no_reset (c # cs) g = (\<not> is_reset c g \<and> no_reset cs (apply_call c g))"

text \<open>The \<open>finalSize\<close> argument of every \<open>complete\<close> call of a sequence, in call order.\<close>

fun complete_sizes :: "call list \<Rightarrow> float64 list" where
  "complete_sizes [] = []"
| "complete_sizes (Complete i f z now # cs) = z # complete_sizes cs"
| "complete_sizes (c # cs) = complete_sizes cs"

text \<open>
  The \<open>finalSize\<close> argument of every \<open>complete\<close> call whose id is the ID of a record
  of the queue at the moment of the call, in call order.
\<close>

fun matched_sizes :: "call list \<Rightarrow> globals \<Rightarrow> float64 list" where
  "matched_sizes [] g = []"
| "matched_sizes (Complete i f z now # cs) g =
     (if i \<in> ID ` set (downloadQueue g) then [z] else [])
     @ matched_sizes cs (apply_call (Complete i f z now) g)"
| "matched_sizes (c # cs) g = matched_sizes cs (apply_call c g)"

fun run_downloading :: "bool list \<Rightarrow> globals \<Rightarrow> globals" where
  "run_downloading [] g = g"
| "run_downloading (b # bs) g = run_downloading bs (SetDownloading b g)"

section \<open>Example data\<close>

definition example_item :: "string \<Rightarrow> DownloadStatus \<Rightarrow> DownloadItem" where
  "example_item i st =
     \<lparr> ID = i, TrackName = ''Song'', ArtistName = ''Artist'', AlbumName = ''Album'',
       SpotifyID = ''sid'', Status = st, Progress = 0, TotalSize = 0, Speed = 0,
       StartTime = 0, EndTime = 0, ErrorMessage = [], FilePath = [] \<rparr>"

definition example_globals :: "DownloadItem list \<Rightarrow> globals" where
  "example_globals q =
     \<lparr> currentProgress = 2.5, activeDownloads = 1, currentSpeed = 1.25, downloadQueue = q,
       currentItemID = ''a'', totalDownloaded = 7, sessionStartTime = 1700000000 \<rparr>"

section \<open>The scans\<close>

lemma scan_by_id_length: "length (scan_by_id i f q) = length q"
  by (induction q) simp_all

lemma scan_by_id_absent: "i \<notin> ID ` set q \<Longrightarrow> scan_by_id i f q = q"
  by (induction q) auto

lemma scan_by_id_first:
  "i \<notin> ID ` set pre \<Longrightarrow> ID x = i \<Longrightarrow> scan_by_id i f (pre @ x # post) = pre @ f x # post"
  by (induction pre) auto

lemma complete_scan_queue:
  "fst (complete_scan i fp z now q t) =
     scan_by_id i (\<lambda>item. item\<lparr>Status := StatusCompleted, EndTime := now, FilePath := fp,
                                Progress := z, TotalSize := z\<rparr>) q"
  by (induction q) (auto split: prod.splits)

lemma complete_scan_total:
  "snd (complete_scan i fp z now q t) = (if i \<in> ID ` set q then t + z else t)"
  by (induction q) (auto split: prod.splits)

lemma clear_scan_filter:
  "clear_scan acc q =
     acc @ filter (\<lambda>item. Status item = StatusQueued \<or> Status item = StatusDownloading) q"
  by (induction q arbitrary: acc) simp_all

lemma cancel_scan_length: "length (cancel_scan clock k q) = length q"
  by (induction q arbitrary: k) simp_all

lemma cancel_scan_nth:
  "j < length q \<Longrightarrow>
   cancel_scan clock k q ! j =
     (if Status (q ! j) = StatusQueued
      then (q ! j)\<lparr>Status := StatusSkipped, EndTime := clock (k + j),
                   ErrorMessage := ''Cancelled''\<rparr>
      else q ! j)"
proof (induction q arbitrary: k j)
  case Nil
  then show ?case by simp
next
  case (Cons x xs)
  show ?case
  proof (cases j)
    case 0
    then show ?thesis by simp
  next
    case (Suc m)
    with Cons.prems have "m < length xs" by simp
    from Cons.IH [OF this, of "Suc k"] Suc show ?thesis by simp
  qed
qed

section \<open>Clearing and cancelling\<close>

text \<open>
  C8. After \<open>ClearDownloadQueue\<close> the queue is the prior queue filtered to the records
  whose status is Queued or Downloading: a subsequence of the prior queue in the
  original order, with no Completed, Failed or Skipped record left. Nothing else of
  the package state changes.
\<close>

theorem ClearDownloadQueue_keeps_pending:
  "downloadQueue (ClearDownloadQueue g) =
     filter (\<lambda>item. Status item = StatusQueued \<or> Status item = StatusDownloading)
       (downloadQueue g)
   \<and> subseq (downloadQueue (ClearDownloadQueue g)) (downloadQueue g)
   \<and> (\<forall>item \<in> set (downloadQueue (ClearDownloadQueue g)).
        Status item \<noteq> StatusCompleted \<and> Status item \<noteq> StatusFailed
        \<and> Status item \<noteq> StatusSkipped)
   \<and> ClearDownloadQueue g = g\<lparr>downloadQueue := downloadQueue (ClearDownloadQueue g)\<rparr>"
  by (auto simp: ClearDownloadQueue_def clear_scan_filter)

theorem ClearDownloadQueue_keeps_pending_witness:
  "downloadQueue (ClearDownloadQueue (example_globals
     [example_item ''a'' StatusQueued, example_item ''b'' StatusCompleted,
      example_item ''c'' StatusDownloading, example_item ''d'' StatusFailed,
      example_item ''e'' StatusSkipped, example_item ''f'' StatusQueued])) =
     [example_item ''a'' StatusQueued, example_item ''c'' StatusDownloading,
      example_item ''f'' StatusQueued]
   \<and> example_item ''a'' StatusQueued \<in> set (downloadQueue (ClearDownloadQueue (example_globals
     [example_item ''a'' StatusQueued, example_item ''b'' StatusCompleted,
      example_item ''c'' StatusDownloading, example_item ''d'' StatusFailed,
      example_item ''e'' StatusSkipped, example_item ''f'' StatusQueued])))"
  using ClearDownloadQueue_keeps_pending [of "example_globals
     [example_item ''a'' StatusQueued, example_item ''b'' StatusCompleted,
      example_item ''c'' StatusDownloading, example_item ''d'' StatusFailed,
      example_item ''e'' StatusSkipped, example_item ''f'' StatusQueued]"]
  by (simp add: example_globals_def example_item_def)

text \<open>
  C7. \<open>CancelAllQueuedItems\<close> keeps the length of the queue; the record at every index
  that was Queued becomes Skipped, with EndTime the clock reading taken for it and
  ErrorMessage "Cancelled", its other fields kept; every record with another status,
  Downloading among them, is the same record as before. Nothing else of the package
  state changes.
\<close>

theorem CancelAllQueuedItems_cancels_queued:
  "length (downloadQueue (CancelAllQueuedItems clock g)) = length (downloadQueue g)
   \<and> (\<forall>j < length (downloadQueue g).
        downloadQueue (CancelAllQueuedItems clock g) ! j =
          (if Status (downloadQueue g ! j) = StatusQueued
           then (downloadQueue g ! j)
                  \<lparr>Status := StatusSkipped, EndTime := clock j, ErrorMessage := ''Cancelled''\<rparr>
           else downloadQueue g ! j))
   \<and> CancelAllQueuedItems clock g
       = g\<lparr>downloadQueue := downloadQueue (CancelAllQueuedItems clock g)\<rparr>"
  by (simp add: CancelAllQueuedItems_def cancel_scan_length cancel_scan_nth)

theorem CancelAllQueuedItems_cancels_queued_witness:
  "(0::nat) < length (downloadQueue (example_globals
      [example_item ''q'' StatusQueued, example_item ''d'' StatusDownloading]))
   \<and> (1::nat) < length (downloadQueue (example_globals
      [example_item ''q'' StatusQueued, example_item ''d'' StatusDownloading]))
   \<and> downloadQueue (CancelAllQueuedItems (\<lambda>j. 1700000123)
        (example_globals [example_item ''q'' StatusQueued, example_item ''d'' StatusDownloading]))
      ! 0 = (example_item ''q'' StatusSkipped)
              \<lparr>EndTime := 1700000123, ErrorMessage := ''Cancelled''\<rparr>
   \<and> downloadQueue (CancelAllQueuedItems (\<lambda>j. 1700000123)
        (example_globals [example_item ''q'' StatusQueued, example_item ''d'' StatusDownloading]))
      ! 1 = example_item ''d'' StatusDownloading"
  using CancelAllQueuedItems_cancels_queued [of "\<lambda>j. 1700000123"
      "example_globals [example_item ''q'' StatusQueued, example_item ''d'' StatusDownloading]"]
  by (simp add: example_globals_def example_item_def)

section \<open>The active-download count\<close>

lemma sint_succ_int64:
  "0 \<le> sint (x::int64) \<Longrightarrow> sint x < 2 ^ 63 - 1 \<Longrightarrow> sint (x + 1) = sint x + 1"
  by (simp add: sint_word_ariths signed_take_bit_int_eq_self)

lemma sint_pred_int64: "0 \<le> sint (x::int64) \<Longrightarrow> sint (x - 1) = sint x - 1"
  using sint_lt [of x] by (simp add: sint_word_ariths signed_take_bit_int_eq_self)

lemma SetDownloading_False_nonneg: "0 \<le> sint (activeDownloads (SetDownloading False g))"
  by (simp add: SetDownloading_def Let_def SetDownloadSpeed_def SetDownloadProgress_def)

lemma SetDownloading_False_reset:
  "sint (activeDownloads g - 1) \<le> 0 \<Longrightarrow>
   SetDownloading False g = g\<lparr>activeDownloads := 0, currentProgress := 0, currentSpeed := 0\<rparr>"
  by (simp add: SetDownloading_def Let_def SetDownloadSpeed_def SetDownloadProgress_def)

lemma SetDownloading_bound:
  assumes "0 \<le> sint (activeDownloads g)" and "sint (activeDownloads g) < 2 ^ 63 - 1"
  shows "0 \<le> sint (activeDownloads (SetDownloading b g))
         \<and> sint (activeDownloads (SetDownloading b g)) \<le> sint (activeDownloads g) + 1"
proof (cases b)
  case True
  with assms show ?thesis by (simp add: SetDownloading_def sint_succ_int64)
next
  case False
  with assms show ?thesis
    by (simp add: SetDownloading_def Let_def SetDownloadSpeed_def SetDownloadProgress_def
        sint_pred_int64)
qed

lemma run_downloading_bound:
  "0 \<le> sint (activeDownloads g) \<Longrightarrow>
   sint (activeDownloads g) + int (length bs) < 2 ^ 63 \<Longrightarrow>
   0 \<le> sint (activeDownloads (run_downloading bs g))
   \<and> sint (activeDownloads (run_downloading bs g))
       \<le> sint (activeDownloads g) + int (length bs)"
proof (induction bs arbitrary: g)
  case Nil
  then show ?case by simp
next
  case (Cons b bs)
  from Cons.prems have lt: "sint (activeDownloads g) < 2 ^ 63 - 1" by simp
  note step = SetDownloading_bound [OF Cons.prems(1) lt, of b]
  from step Cons.prems(2)
  have "sint (activeDownloads (SetDownloading b g)) + int (length bs) < 2 ^ 63" by simp
  with step Cons.IH [of "SetDownloading b g"] show ?case by simp
qed

text \<open>
  C5. From a count that is not negative, after every call of a sequence of
  \<open>SetDownloading\<close> calls the count is not negative, as long as the count cannot
  reach the end of the int64 range (the count plus the number of calls stays below
  \<open>2 ^ 63\<close>). After a decrement the count is never negative, from any state. Whenever
  the decremented value is 0 or below, the count is 0 after the call and
  currentProgress and currentSpeed are 0, so \<open>GetDownloadProgress\<close> reads 0 for both.
\<close>

theorem SetDownloading_count_floor:
  "(0 \<le> sint (activeDownloads g) \<and> sint (activeDownloads g) + int (length bs) < 2 ^ 63 \<longrightarrow>
      (\<forall>k \<le> length bs. 0 \<le> sint (activeDownloads (run_downloading (take k bs) g))))
   \<and> 0 \<le> sint (activeDownloads (SetDownloading False g))
   \<and> (sint (activeDownloads g - 1) \<le> 0 \<longrightarrow>
        activeDownloads (SetDownloading False g) = 0
        \<and> currentProgress (SetDownloading False g) = 0
        \<and> currentSpeed (SetDownloading False g) = 0
        \<and> MBDownloaded (GetDownloadProgress (SetDownloading False g)) = 0
        \<and> SpeedMBps (GetDownloadProgress (SetDownloading False g)) = 0
        \<and> \<not> IsDownloading (GetDownloadProgress (SetDownloading False g)))"
proof (intro conjI impI allI)
  fix k
  assume a: "0 \<le> sint (activeDownloads g) \<and> sint (activeDownloads g) + int (length bs) < 2 ^ 63"
    and k: "k \<le> length bs"
  then have "sint (activeDownloads g) + int (length (take k bs)) < 2 ^ 63" by simp
  with a run_downloading_bound [of g "take k bs"]
  show "0 \<le> sint (activeDownloads (run_downloading (take k bs) g))" by simp
next
  show "0 \<le> sint (activeDownloads (SetDownloading False g))"
    by (rule SetDownloading_False_nonneg)
qed (simp_all add: SetDownloading_False_reset GetDownloadProgress_def)

theorem SetDownloading_count_floor_witness:
  "0 \<le> sint (activeDownloads (example_globals []))
   \<and> sint (activeDownloads (example_globals [])) + int (length [False, False, True, False])
       < 2 ^ 63
   \<and> (3::nat) \<le> length [False, False, True, False]
   \<and> 0 \<le> sint (activeDownloads
          (run_downloading (take 3 [False, False, True, False]) (example_globals [])))
   \<and> sint (activeDownloads (example_globals []) - 1) \<le> 0
   \<and> currentProgress (example_globals []) = 2.5
   \<and> currentSpeed (example_globals []) = 1.25
   \<and> activeDownloads (SetDownloading False (example_globals [])) = 0
   \<and> MBDownloaded (GetDownloadProgress (SetDownloading False (example_globals []))) = 0
   \<and> SpeedMBps (GetDownloadProgress (SetDownloading False (example_globals []))) = 0"
proof -
  note t = SetDownloading_count_floor [of "example_globals []" "[False, False, True, False]"]
  have a: "0 \<le> sint (activeDownloads (example_globals []))
           \<and> sint (activeDownloads (example_globals []))
               + int (length [False, False, True, False]) < 2 ^ 63"
    by (simp add: example_globals_def)
  have b: "(3::nat) \<le> length [False, False, True, False]" by simp
  from t a b
  have r: "0 \<le> sint (activeDownloads
             (run_downloading (take 3 [False, False, True, False]) (example_globals [])))"
    by blast
  have c: "sint (activeDownloads (example_globals []) - 1) \<le> 0"
    by (simp add: example_globals_def)
  from t c
  have z: "activeDownloads (SetDownloading False (example_globals [])) = 0
           \<and> MBDownloaded (GetDownloadProgress (SetDownloading False (example_globals []))) = 0
           \<and> SpeedMBps (GetDownloadProgress (SetDownloading False (example_globals []))) = 0"
    by blast
  have v: "currentProgress (example_globals []) = 2.5 \<and> currentSpeed (example_globals []) = 1.25"
    by (simp add: example_globals_def)
  from a b r c z v show ?thesis by blast
qed

section \<open>Starting an item\<close>

text \<open>
  C3, as the code has it. For an id that is the ID of no record of the queue,
  \<open>StartDownloadItem\<close> leaves the queue and every aggregate as they were, and sets the
  current-item cursor to that id: the cursor is written after the scan, whether or
  not a record matched.
\<close>

theorem StartDownloadItem_unknown_id:
  "i \<notin> ID ` set (downloadQueue g) \<Longrightarrow>
     StartDownloadItem i now g = g\<lparr>currentItemID := i\<rparr>
     \<and> downloadQueue (StartDownloadItem i now g) = downloadQueue g
     \<and> GetCurrentItemID (StartDownloadItem i now g) = i"
  by (simp add: StartDownloadItem_def scan_by_id_absent GetCurrentItemID_def)

theorem StartDownloadItem_unknown_id_witness:
  "''zzz'' \<notin> ID ` set (downloadQueue (example_globals [example_item ''a'' StatusDownloading]))
   \<and> StartDownloadItem ''zzz'' 1700000050 (example_globals [example_item ''a'' StatusDownloading])
       = (example_globals [example_item ''a'' StatusDownloading])\<lparr>currentItemID := ''zzz''\<rparr>
   \<and> GetCurrentItemID (example_globals [example_item ''a'' StatusDownloading]) = ''a''
   \<and> GetCurrentItemID
        (StartDownloadItem ''zzz'' 1700000050
           (example_globals [example_item ''a'' StatusDownloading])) = ''zzz''"
  using StartDownloadItem_unknown_id [of "''zzz''"
      "example_globals [example_item ''a'' StatusDownloading]" 1700000050]
  by (simp add: example_globals_def example_item_def GetCurrentItemID_def)

text \<open>
  The claim as stated fails: on the empty queue of a fresh package, starting an
  unknown id changes the package state, since the cursor goes from empty to that id.
\<close>

theorem StartDownloadItem_unknown_id_counterexample:
  "''ghost'' \<notin> ID ` set (downloadQueue initial_globals)
   \<and> StartDownloadItem ''ghost'' 1700000000 initial_globals \<noteq> initial_globals
   \<and> GetCurrentItemID initial_globals = []
   \<and> GetCurrentItemID (StartDownloadItem ''ghost'' 1700000000 initial_globals) = ''ghost''"
  by (simp add: StartDownloadItem_def initial_globals_def GetCurrentItemID_def)

section \<open>The sampler forwards the sink's result\<close>

lemma Write_result:
  "fst (Write sw now pw p g) = fst (sw (writer pw) p)"
  by (simp add: Write_def Let_def split: prod.splits)

lemma Write_writer:
  "writer (fst (snd (snd (Write sw now pw p g)))) = snd (sw (writer pw) p)"
  by (simp add: Write_def Let_def split: prod.splits)

lemma Write_total:
  "total (fst (snd (snd (Write sw now pw p g)))) = total pw + fst (fst (sw (writer pw) p))"
  by (simp add: Write_def Let_def split: prod.splits)

lemma feed_results:
  "fst (feed sw chunks pw g) = fst (feed_sink sw (map fst chunks) (writer pw))
   \<and> writer (fst (snd (snd (feed sw chunks pw g)))) = snd (feed_sink sw (map fst chunks) (writer pw))"
proof (induction chunks arbitrary: pw g)
  case Nil
  then show ?case by simp
next
  case (Cons c chunks)
  obtain p now where c: "c = (p, now)" by (cases c)
  obtain r pubs pw1 g1 where w: "Write sw now pw p g = (r, pubs, pw1, g1)"
    by (cases "Write sw now pw p g")
  from w Write_result [of sw now pw p g] Write_writer [of sw now pw p g]
  have s: "sw (writer pw) p = (r, writer pw1)" by (cases "sw (writer pw) p") simp
  from Cons.IH [of pw1 g1] c w s show ?case by (auto split: prod.splits)
qed

lemma feed_total:
  "total (fst (snd (snd (feed sw chunks pw g)))) =
     total pw + sum_list (map fst (fst (feed_sink sw (map fst chunks) (writer pw))))"
proof (induction chunks arbitrary: pw g)
  case Nil
  then show ?case by simp
next
  case (Cons c chunks)
  obtain p now where c: "c = (p, now)" by (cases c)
  obtain r pubs pw1 g1 where w: "Write sw now pw p g = (r, pubs, pw1, g1)"
    by (cases "Write sw now pw p g")
  from w Write_result [of sw now pw p g] Write_writer [of sw now pw p g]
  have s: "sw (writer pw) p = (r, writer pw1)" by (cases "sw (writer pw) p") simp
  from w Write_total [of sw now pw p g] s have t: "total pw1 = total pw + fst r" by simp
  from Cons.IH [of pw1 g1] c w s t show ?case by (auto split: prod.splits simp: add.assoc)
qed

lemma sum_list_int64:
  "sum_list ns = (word_of_int (sum_list (map sint ns)) :: int64)"
  by (induction ns) simp_all

lemma sint_sum_list_int64_in_range:
  "- (2 ^ 63) \<le> sum_list (map sint ns) \<Longrightarrow> sum_list (map sint ns) < 2 ^ 63 \<Longrightarrow>
   sint (sum_list ns) = sum_list (map sint (ns :: int64 list))"
  by (subst sum_list_int64) (simp add: sint_sbintrunc' signed_take_bit_int_eq_self)

text \<open>
  C6. \<open>Write\<close> calls the sink's \<open>Write\<close> once, on the buffer it was given, and returns
  the byte count and the error of that call as they are; the sink is left in the
  state that call produced. Over a whole stream, the results returned through the
  sampler and the final state of the sink are those of writing the same buffers to
  the sink directly.
\<close>

theorem Write_forwards_sink_result:
  "fst (Write sw now pw p g) = fst (sw (writer pw) p)
   \<and> writer (fst (snd (snd (Write sw now pw p g)))) = snd (sw (writer pw) p)
   \<and> fst (feed sw chunks pw g) = fst (feed_sink sw (map fst chunks) (writer pw))
   \<and> writer (fst (snd (snd (feed sw chunks pw g))))
       = snd (feed_sink sw (map fst chunks) (writer pw))"
  using Write_result [of sw now pw p g] Write_writer [of sw now pw p g]
    feed_results [of sw chunks pw g] by simp

theorem Write_forwards_sink_result_witness:
  "fst (Write (short_sink 100) 5000 (NewProgressWriter [] 1000) (replicate 300 7) initial_globals)
     = (100, Some ''short write'')
   \<and> writer (fst (snd (snd (Write (short_sink 100) 5000 (NewProgressWriter [] 1000)
                                 (replicate 300 7) initial_globals))))
     = replicate 100 7"
  using Write_forwards_sink_result [of "short_sink 100" 5000 "NewProgressWriter [] 1000"
      "replicate 300 7" initial_globals "[]"]
  by (simp add: short_sink_def NewProgressWriter_def)

text \<open>
  C10. \<open>Write\<close> adds to the running total the count the sink returned, whatever the
  length of the buffer and whatever the error. After any stream, \<open>GetTotal\<close> is the
  total before it plus the int64 sum of the counts the sink returned; for a sampler
  that started at 0, when the sum of the counts lies in the int64 range, \<open>GetTotal\<close>
  read as an integer is that sum.
\<close>

theorem GetTotal_sums_reported_counts:
  "GetTotal (fst (snd (snd (Write sw now pw p g)))) = GetTotal pw + fst (fst (sw (writer pw) p))
   \<and> GetTotal (fst (snd (snd (feed sw chunks pw g))))
       = GetTotal pw + sum_list (map fst (fst (feed_sink sw (map fst chunks) (writer pw))))
   \<and> (GetTotal pw = 0
       \<and> - (2 ^ 63) \<le> sum_list (map (sint \<circ> fst) (fst (feed_sink sw (map fst chunks) (writer pw))))
       \<and> sum_list (map (sint \<circ> fst) (fst (feed_sink sw (map fst chunks) (writer pw)))) < 2 ^ 63
       \<longrightarrow> sint (GetTotal (fst (snd (snd (feed sw chunks pw g)))))
           = sum_list (map (sint \<circ> fst) (fst (feed_sink sw (map fst chunks) (writer pw)))))"
proof (intro conjI impI)
  assume a: "GetTotal pw = 0
       \<and> - (2 ^ 63) \<le> sum_list (map (sint \<circ> fst) (fst (feed_sink sw (map fst chunks) (writer pw))))
       \<and> sum_list (map (sint \<circ> fst) (fst (feed_sink sw (map fst chunks) (writer pw)))) < 2 ^ 63"
  let ?ns = "map fst (fst (feed_sink sw (map fst chunks) (writer pw)))"
  have m: "map (sint \<circ> fst) (fst (feed_sink sw (map fst chunks) (writer pw))) = map sint ?ns"
    by simp
  from a have "GetTotal (fst (snd (snd (feed sw chunks pw g)))) = sum_list ?ns"
    by (simp add: GetTotal_def feed_total)
  with a sint_sum_list_int64_in_range [of ?ns]
  show "sint (GetTotal (fst (snd (snd (feed sw chunks pw g)))))
           = sum_list (map (sint \<circ> fst) (fst (feed_sink sw (map fst chunks) (writer pw))))"
    unfolding m by simp
qed (simp_all add: GetTotal_def Write_total feed_total)

theorem GetTotal_sums_reported_counts_witness:
  "GetTotal (NewProgressWriter ([] :: byte list) 1000) = 0
   \<and> fst (feed_sink (short_sink 100) [replicate 80 7, replicate 300 7] [])
       = [(80, None), (100, Some ''short write'')]
   \<and> sint (GetTotal (fst (snd (snd
        (feed (short_sink 100) [(replicate 80 7, 5000), (replicate 300 7, 6000)]
           (NewProgressWriter [] 1000) initial_globals))))) = 180"
proof -
  have w: "writer (NewProgressWriter ([] :: byte list) 1000) = []"
    and z: "GetTotal (NewProgressWriter ([] :: byte list) 1000) = 0"
    by (simp_all add: NewProgressWriter_def GetTotal_def)
  have fs: "fst (feed_sink (short_sink 100) [replicate 80 7, replicate 300 7] [])
              = [(80, None), (100, Some ''short write'')]"
    by (simp add: short_sink_def)
  note t = GetTotal_sums_reported_counts [of "short_sink 100" 5000 "NewProgressWriter [] 1000"
      "replicate 80 7" initial_globals "[(replicate 80 7, 5000), (replicate 300 7, 6000)]",
      THEN conjunct2, THEN conjunct2]
  have m: "map fst [(replicate 80 (7::byte), 5000::int64), (replicate 300 7, 6000)]
             = [replicate 80 7, replicate 300 7]"
    by simp
  have sm: "sum_list (map (sint \<circ> fst) [(80::int64, None), (100, Some ''short write'')]) = 180"
    by simp
  have r: "- (2 ^ 63) \<le> (180::int) \<and> (180::int) < 2 ^ 63" by simp
  from t [unfolded m w fs sm] z r
  have "sint (GetTotal (fst (snd (snd
        (feed (short_sink 100) [(replicate 80 7, 5000), (replicate 300 7, 6000)]
           (NewProgressWriter [] 1000) initial_globals))))) = 180"
    by blast
  with z fs show ?thesis by blast
qed

section \<open>Sampling a stream of one MiB\<close>

lemma signed_real_pos: "(0 < (signed (x::int64) :: real)) = (0 < sint x)"
  using of_int_0_less_iff [where 'a = real, of "sint x"] by (simp only: of_int_sint)

lemma signed_real_le: "((signed (x::int64) :: real) \<le> 0) = (sint x \<le> 0)"
  using of_int_le_0_iff [where 'a = real, of "sint x"] by (simp only: of_int_sint)

lemma Write_sampled:
  assumes s: "sw (writer pw) p = ((n, err), w')"
    and thr: "262144 \<le> sint (total pw + n - lastPrinted pw)"
    and el: "0 < sint (now - lastTime pw)"
  shows "filter is_speed (fst (snd (Write sw now pw p g))) =
           [PublishedSpeed ((real_of_int (sint (total pw + n - lastBytes pw)) / (1024 * 1024))
                            / (real_of_int (sint (now - lastTime pw)) / 1000))]"
    and "fst (snd (snd (Write sw now pw p g))) =
           pw\<lparr>writer := w', total := total pw + n, lastPrinted := total pw + n,
              lastTime := now, lastBytes := total pw + n\<rparr>"
  using s thr el by (simp_all add: Write_def Let_def signed_real_pos signed_real_le)

lemma Write_sampled_no_time:
  assumes s: "sw (writer pw) p = ((n, err), w')"
    and thr: "262144 \<le> sint (total pw + n - lastPrinted pw)"
    and el: "sint (now - lastTime pw) \<le> 0"
  shows "filter is_speed (fst (snd (Write sw now pw p g))) = []"
    and "fst (snd (snd (Write sw now pw p g))) =
           pw\<lparr>writer := w', total := total pw + n, lastPrinted := total pw + n,
              lastTime := now, lastBytes := total pw + n\<rparr>"
  using s thr el by (simp_all add: Write_def Let_def signed_real_pos signed_real_le)

lemma Write_not_sampled:
  assumes s: "sw (writer pw) p = ((n, err), w')"
    and thr: "sint (total pw + n - lastPrinted pw) < 262144"
  shows "Write sw now pw p g = ((n, err), [], pw\<lparr>writer := w', total := total pw + n\<rparr>, g)"
  using s thr by (simp add: Write_def Let_def)

lemma feed_Cons_speed:
  "filter is_speed (fst (snd (feed sw ((p, now) # rest) pw g))) =
     filter is_speed (fst (snd (Write sw now pw p g)))
     @ filter is_speed (fst (snd (feed sw rest (fst (snd (snd (Write sw now pw p g))))
                                         (snd (snd (snd (Write sw now pw p g)))))))"
  by (simp split: prod.splits)

lemma three_samples:
  assumes full: "\<And>w p. fst (sw w p) = (word_of_nat (length p), None)"
    and l1: "length c1 = 307200" and l2: "length c2 = 307200" and l3: "length c3 = 307200"
    and l4: "length c4 = 126976"
    and e1: "0 < sint (t1 - t0)" and e2: "0 < sint (t2 - t1)" and e3: "0 < sint (t3 - t2)"
  shows "filter is_speed (fst (snd
           (feed sw [(c1, t1), (c2, t2), (c3, t3), (c4, t4)]
              (NewProgressWriterWithID w i t0) g))) =
         [PublishedSpeed (307200 / (1024 * 1024) / (real_of_int (sint (t1 - t0)) / 1000)),
          PublishedSpeed (307200 / (1024 * 1024) / (real_of_int (sint (t2 - t1)) / 1000)),
          PublishedSpeed (307200 / (1024 * 1024) / (real_of_int (sint (t3 - t2)) / 1000))]"
proof -
  let ?pw0 = "NewProgressWriterWithID w i t0"
  have s: "sw v p = ((word_of_nat (length p), None), snd (sw v p))" for v p
    using full [of v p] by (cases "sw v p") simp
  define W1 where "W1 = Write sw t1 ?pw0 c1 g"
  define pw1 where "pw1 = fst (snd (snd W1))"
  define W2 where "W2 = Write sw t2 pw1 c2 (snd (snd (snd W1)))"
  define pw2 where "pw2 = fst (snd (snd W2))"
  define W3 where "W3 = Write sw t3 pw2 c3 (snd (snd (snd W2)))"
  define pw3 where "pw3 = fst (snd (snd W3))"
  define W4 where "W4 = Write sw t4 pw3 c4 (snd (snd (snd W3)))"
  have p0: "total ?pw0 = 0" "lastPrinted ?pw0 = 0" "lastTime ?pw0 = t0" "lastBytes ?pw0 = 0"
    by (simp_all add: NewProgressWriterWithID_def NewProgressWriter_def)
  have "262144 \<le> sint (total ?pw0 + word_of_nat (length c1) - lastPrinted ?pw0)"
    and "0 < sint (t1 - lastTime ?pw0)"
    using p0 l1 e1 by simp_all
  note r1 = Write_sampled [where sw = sw and pw = "?pw0" and p = c1 and now = t1 and g = "g", OF s this]
  have a1: "filter is_speed (fst (snd W1)) =
      [PublishedSpeed (307200 / (1024 * 1024) / (real_of_int (sint (t1 - t0)) / 1000))]"
    unfolding W1_def r1(1) using p0 l1 by simp
  have b1: "total pw1 = 307200" "lastPrinted pw1 = 307200" "lastTime pw1 = t1"
    "lastBytes pw1 = 307200"
    unfolding W1_def pw1_def r1(2) using p0 l1 by simp_all
  have "262144 \<le> sint (total pw1 + word_of_nat (length c2) - lastPrinted pw1)"
    and "0 < sint (t2 - lastTime pw1)"
    using b1 l2 e2 by simp_all
  note r2 = Write_sampled [where sw = sw and pw = "pw1" and p = c2 and now = t2 and g = "snd (snd (snd W1))", OF s this]
  have a2: "filter is_speed (fst (snd W2)) =
      [PublishedSpeed (307200 / (1024 * 1024) / (real_of_int (sint (t2 - t1)) / 1000))]"
    unfolding W2_def r2(1) using b1 l2 by simp
  have b2: "total pw2 = 614400" "lastPrinted pw2 = 614400" "lastTime pw2 = t2"
    "lastBytes pw2 = 614400"
    unfolding W2_def pw2_def r2(2) using b1 l2 by simp_all
  have "262144 \<le> sint (total pw2 + word_of_nat (length c3) - lastPrinted pw2)"
    and "0 < sint (t3 - lastTime pw2)"
    using b2 l3 e3 by simp_all
  note r3 = Write_sampled [where sw = sw and pw = "pw2" and p = c3 and now = t3 and g = "snd (snd (snd W2))", OF s this]
  have a3: "filter is_speed (fst (snd W3)) =
      [PublishedSpeed (307200 / (1024 * 1024) / (real_of_int (sint (t3 - t2)) / 1000))]"
    unfolding W3_def r3(1) using b2 l3 by simp
  have b3: "total pw3 = 921600" "lastPrinted pw3 = 921600" "lastTime pw3 = t3"
    "lastBytes pw3 = 921600"
    unfolding W3_def pw3_def r3(2) using b2 l3 by simp_all
  have "sint (total pw3 + word_of_nat (length c4) - lastPrinted pw3) < 262144"
    using b3 l4 by simp
  note r4 = Write_not_sampled [where sw = sw and pw = "pw3" and p = c4 and now = t4 and g = "snd (snd (snd W3))", OF s this]
  have a4: "fst (snd W4) = []"
    unfolding W4_def r4 by simp
  have "filter is_speed (fst (snd (feed sw [(c1, t1), (c2, t2), (c3, t3), (c4, t4)] ?pw0 g))) =
          filter is_speed (fst (snd W1)) @ filter is_speed (fst (snd W2))
          @ filter is_speed (fst (snd W3)) @ filter is_speed (fst (snd W4))"
    unfolding W1_def pw1_def W2_def pw2_def W3_def pw3_def W4_def
    by (simp only: feed_Cons_speed feed.simps(1) fst_conv snd_conv filter.simps append_Nil2)
  with a1 a2 a3 a4 show ?thesis by simp
qed

lemma NewProgressWriterWithID_empty: "NewProgressWriterWithID w [] now = NewProgressWriter w now"
  by (simp add: NewProgressWriterWithID_def NewProgressWriter_def)

text \<open>
  C2, as the code has it. A sampler made by either constructor is fed 1,048,576
  bytes in chunks of 307,200 bytes: three full chunks and a rest of 126,976 bytes.
  Every write of the sink succeeds in full and the elapsed time at each sample is
  positive. Each of the three full chunks alone moves the running total 307,200
  bytes past the last sample, which is over the threshold of 262,144, so each of
  them publishes a speed; the rest does not reach the threshold. Three speed
  updates are published.
\<close>

theorem feed_one_MiB_three_speed_updates:
  assumes "\<forall>w p. fst (sw w p) = (word_of_nat (length p), None)"
    and "length c1 = 307200" and "length c2 = 307200" and "length c3 = 307200"
    and "length c4 = 126976"
    and "0 < sint (t1 - t0)" and "0 < sint (t2 - t1)" and "0 < sint (t3 - t2)"
  shows "length (filter is_speed (fst (snd
           (feed sw [(c1, t1), (c2, t2), (c3, t3), (c4, t4)]
              (NewProgressWriterWithID w i t0) g)))) = 3
         \<and> length (filter is_speed (fst (snd
           (feed sw [(c1, t1), (c2, t2), (c3, t3), (c4, t4)]
              (NewProgressWriter w t0) g)))) = 3"
proof -
  from assms(1) have full: "\<And>w p. fst (sw w p) = (word_of_nat (length p), None)" by blast
  note r = three_samples [of sw c1 c2 c3 c4 t1 t0 t2 t3 t4 w _ g, OF full assms(2-8)]
  have a: "length (filter is_speed (fst (snd
           (feed sw [(c1, t1), (c2, t2), (c3, t3), (c4, t4)]
              (NewProgressWriterWithID w i t0) g)))) = 3"
    by (simp only: r [of i]) simp
  have b: "length (filter is_speed (fst (snd
           (feed sw [(c1, t1), (c2, t2), (c3, t3), (c4, t4)]
              (NewProgressWriter w t0) g)))) = 3"
    by (simp only: r [of "[]", unfolded NewProgressWriterWithID_empty]) simp
  from a b show ?thesis by blast
qed

theorem feed_one_MiB_three_speed_updates_witness:
  "fst (full_sink [] (replicate 5 0)) = (word_of_nat (length (replicate 5 (0::byte))), None)
   \<and> length (replicate 307200 (0::byte)) = 307200
   \<and> length (replicate 126976 (0::byte)) = 126976
   \<and> 0 < sint (1500 - 1000 :: int64) \<and> 0 < sint (2100 - 1500 :: int64)
   \<and> 0 < sint (2600 - 2100 :: int64)
   \<and> length (filter is_speed (fst (snd
        (feed full_sink
           [(replicate 307200 0, 1500), (replicate 307200 0, 2100),
            (replicate 307200 0, 2600), (replicate 126976 0, 2600)]
           (NewProgressWriterWithID [] ''a'' 1000) initial_globals)))) = 3"
proof -
  have h0: "\<forall>w p. fst (full_sink w p) = (word_of_nat (length p), None)"
    by (simp add: full_sink_def)
  have h1: "length (replicate 307200 (0::byte)) = 307200" by simp
  have h4: "length (replicate 126976 (0::byte)) = 126976" by simp
  have e1: "0 < sint (1500 - 1000 :: int64)" by simp
  have e2: "0 < sint (2100 - 1500 :: int64)" by simp
  have e3: "0 < sint (2600 - 2100 :: int64)" by simp
  note t = feed_one_MiB_three_speed_updates [OF h0 h1 h1 h1 h4 e1 e2 e3, of 2600 "[]" "''a''" initial_globals]
  from h0 have h0': "fst (full_sink [] (replicate 5 0)) = (word_of_nat (length (replicate 5 (0::byte))), None)"
    by blast
  from h0' h1 h4 e1 e2 e3 t show ?thesis by blast
qed

text \<open>
  The claim as stated fails: on a sink that accepts everything, with half a second
  and more between the writes, the number of speed updates is not one.
\<close>

theorem feed_one_MiB_one_speed_update_counterexample:
  "sum_list (map (length \<circ> fst)
        [(replicate 307200 (0::byte), 1500 :: int64), (replicate 307200 0, 2100),
         (replicate 307200 0, 2600), (replicate 126976 0, 2600)]) = 1048576
   \<and> length (filter is_speed (fst (snd
        (feed full_sink
           [(replicate 307200 0, 1500), (replicate 307200 0, 2100),
            (replicate 307200 0, 2600), (replicate 126976 0, 2600)]
           (NewProgressWriter [] 1000) initial_globals)))) \<noteq> 1"
proof -
  have full: "\<And>w p. fst (full_sink w p) = (word_of_nat (length p), None)"
    by (simp add: full_sink_def)
  have "length (filter is_speed (fst (snd
        (feed full_sink
           [(replicate 307200 0, 1500), (replicate 307200 0, 2100),
            (replicate 307200 0, 2600), (replicate 126976 0, 2600)]
           (NewProgressWriterWithID [] [] 1000) initial_globals)))) = 3"
    by (subst three_samples [OF full]) simp_all
  then show ?thesis by (simp only: NewProgressWriterWithID_empty) simp
qed

section \<open>The status of a record over a sequence of calls\<close>

lemma scan_by_id_nth:
  "j < length q \<Longrightarrow> scan_by_id i f q ! j = q ! j \<or> scan_by_id i f q ! j = f (q ! j)"
proof (induction q arbitrary: j)
  case Nil
  then show ?case by simp
next
  case (Cons x xs)
  then show ?case by (cases j) auto
qed

lemma scan_by_id_keeps:
  assumes "\<And>x. ID (f x) = ID x"
    and "\<And>x. Status (f x) \<noteq> StatusQueued \<or> Status (f x) = Status x"
    and "j < length q"
  shows "ID (scan_by_id i f q ! j) = ID (q ! j)
         \<and> (Status (q ! j) \<noteq> StatusQueued \<longrightarrow> Status (scan_by_id i f q ! j) \<noteq> StatusQueued)"
  using scan_by_id_nth [OF assms(3), of i f] assms(1) [of "q ! j"] assms(2) [of "q ! j"]
  by auto

lemma downloadQueue_CompleteDownloadItem:
  "downloadQueue (CompleteDownloadItem i fp z now g) =
     scan_by_id i (\<lambda>item. item\<lparr>Status := StatusCompleted, EndTime := now, FilePath := fp,
                                Progress := z, TotalSize := z\<rparr>) (downloadQueue g)"
  by (simp add: CompleteDownloadItem_def case_prod_beta complete_scan_queue)

lemma totalDownloaded_CompleteDownloadItem:
  "totalDownloaded (CompleteDownloadItem i fp z now g) =
     (if i \<in> ID ` set (downloadQueue g) then totalDownloaded g + z else totalDownloaded g)"
  by (simp add: CompleteDownloadItem_def case_prod_beta complete_scan_total)

lemma lifecycle_step:
  assumes "lifecycle c" and "j < length (downloadQueue g)"
  shows "j < length (downloadQueue (apply_call c g))
         \<and> ID (downloadQueue (apply_call c g) ! j) = ID (downloadQueue g ! j)
         \<and> (Status (downloadQueue g ! j) \<noteq> StatusQueued
              \<longrightarrow> Status (downloadQueue (apply_call c g) ! j) \<noteq> StatusQueued)"
proof (cases c)
  case (Enqueue i t a b s now)
  with assms(2) show ?thesis by (simp add: AddToQueue_def Let_def nth_append)
next
  case (Start i now)
  with assms(2) show ?thesis
    by (simp add: StartDownloadItem_def Let_def scan_by_id_length scan_by_id_keeps)
next
  case (UpdateProgress i p s)
  with assms(2) show ?thesis
    by (simp add: UpdateItemProgress_def scan_by_id_length scan_by_id_keeps)
next
  case (Complete i f z now)
  with assms(2) show ?thesis
    by (simp add: downloadQueue_CompleteDownloadItem scan_by_id_length scan_by_id_keeps)
next
  case (Fail i m now)
  with assms(2) show ?thesis
    by (simp add: FailDownloadItem_def scan_by_id_length scan_by_id_keeps)
next
  case (Skip i f now)
  with assms(2) show ?thesis
    by (simp add: SkipDownloadItem_def scan_by_id_length scan_by_id_keeps)
next
  case (CancelAllQueued clock)
  with assms(2) show ?thesis
    by (simp add: CancelAllQueuedItems_def cancel_scan_length cancel_scan_nth)
qed (use assms(1) in simp_all)

text \<open>
  C1, as the code has it. Over any sequence of enqueue, start, updateProgress,
  complete, fail, skip and cancelAllQueued calls, a record stays at its index with
  its ID, and once its status is not Queued it is never Queued again. The store
  enforces no more than that: start, complete, fail and skip write the status of
  the first record with the id whatever its status is.
\<close>

theorem status_never_returns_to_Queued:
  "\<forall>c \<in> set cs. lifecycle c \<Longrightarrow> j < length (downloadQueue g) \<Longrightarrow>
     j < length (downloadQueue (run cs g))
     \<and> ID (downloadQueue (run cs g) ! j) = ID (downloadQueue g ! j)
     \<and> (Status (downloadQueue g ! j) \<noteq> StatusQueued
          \<longrightarrow> Status (downloadQueue (run cs g) ! j) \<noteq> StatusQueued)"
proof (induction cs arbitrary: g)
  case Nil
  then show ?case by simp
next
  case (Cons c cs)
  from Cons.prems have lc: "lifecycle c" and rest: "\<forall>c \<in> set cs. lifecycle c" by simp_all
  note st = lifecycle_step [OF lc Cons.prems(2)]
  from st have j: "j < length (downloadQueue (apply_call c g))" by blast
  from Cons.IH [OF rest j] st show ?case by simp
qed

theorem status_never_returns_to_Queued_witness:
  "lifecycle (Enqueue ''b'' ''Song'' ''Artist'' ''Album'' ''sid'' 1700000001)
   \<and> lifecycle (Complete ''a'' ''/out/a.mp3'' 3 1700000010)
   \<and> lifecycle (Start ''a'' 1700000020)
   \<and> lifecycle (CancelAllQueued (\<lambda>j. 1700000030))
   \<and> lifecycle (Fail ''a'' ''timeout'' 1700000040)
   \<and> (0::nat) < length (downloadQueue (example_globals [example_item ''a'' StatusDownloading]))
   \<and> Status (downloadQueue (example_globals [example_item ''a'' StatusDownloading]) ! 0)
       \<noteq> StatusQueued
   \<and> Status (downloadQueue
        (run [Enqueue ''b'' ''Song'' ''Artist'' ''Album'' ''sid'' 1700000001,
              Complete ''a'' ''/out/a.mp3'' 3 1700000010, Start ''a'' 1700000020,
              CancelAllQueued (\<lambda>j. 1700000030), Fail ''a'' ''timeout'' 1700000040]
           (example_globals [example_item ''a'' StatusDownloading])) ! 0) \<noteq> StatusQueued
   \<and> ID (downloadQueue
        (run [Enqueue ''b'' ''Song'' ''Artist'' ''Album'' ''sid'' 1700000001,
              Complete ''a'' ''/out/a.mp3'' 3 1700000010, Start ''a'' 1700000020,
              CancelAllQueued (\<lambda>j. 1700000030), Fail ''a'' ''timeout'' 1700000040]
           (example_globals [example_item ''a'' StatusDownloading])) ! 0) = ''a''"
proof -
  let ?cs = "[Enqueue ''b'' ''Song'' ''Artist'' ''Album'' ''sid'' 1700000001,
              Complete ''a'' ''/out/a.mp3'' 3 1700000010, Start ''a'' 1700000020,
              CancelAllQueued (\<lambda>j. 1700000030), Fail ''a'' ''timeout'' 1700000040]"
  let ?g = "example_globals [example_item ''a'' StatusDownloading]"
  have l: "\<forall>c \<in> set ?cs. lifecycle c" by simp
  have j: "(0::nat) < length (downloadQueue ?g)" by (simp add: example_globals_def)
  have s: "Status (downloadQueue ?g ! 0) \<noteq> StatusQueued"
    and i: "ID (downloadQueue ?g ! 0) = ''a''"
    by (simp_all add: example_globals_def example_item_def)
  note t = status_never_returns_to_Queued [OF l j]
  from t s i have "Status (downloadQueue (run ?cs ?g) ! 0) \<noteq> StatusQueued
      \<and> ID (downloadQueue (run ?cs ?g) ! 0) = ''a''"
    by metis
  with l j s show ?thesis by simp
qed

text \<open>
  The claim as stated fails. A Completed record that is started again is
  Downloading; a record cancelled while Queued is Skipped, and the \<open>complete\<close> call
  of the worker that finishes it afterwards makes it Completed: a second terminal
  state.
\<close>

theorem status_single_shot_counterexample:
  "Status (downloadQueue
      (run [Enqueue ''a'' ''Song'' ''Artist'' ''Album'' ''sid'' 1700000000,
            Complete ''a'' ''/out/a.mp3'' 3 1700000010] initial_globals) ! 0) = StatusCompleted
   \<and> Status (downloadQueue
      (run [Enqueue ''a'' ''Song'' ''Artist'' ''Album'' ''sid'' 1700000000,
            Complete ''a'' ''/out/a.mp3'' 3 1700000010,
            Start ''a'' 1700000020] initial_globals) ! 0) = StatusDownloading
   \<and> Status (downloadQueue
      (run [Enqueue ''a'' ''Song'' ''Artist'' ''Album'' ''sid'' 1700000000,
            CancelAllQueued (\<lambda>j. 1700000005)] initial_globals) ! 0) = StatusSkipped
   \<and> Status (downloadQueue
      (run [Enqueue ''a'' ''Song'' ''Artist'' ''Album'' ''sid'' 1700000000,
            CancelAllQueued (\<lambda>j. 1700000005),
            Complete ''a'' ''/out/a.mp3'' 3 1700000010] initial_globals) ! 0) = StatusCompleted"
  by (simp add: initial_globals_def AddToQueue_def Let_def CompleteDownloadItem_def
      StartDownloadItem_def CancelAllQueuedItems_def)

section \<open>Records with the same id\<close>

text \<open>
  C9. \<open>AddToQueue\<close> appends a Queued record whether or not the id is already in the
  queue, so the number of records with that id grows by one. When the first record
  with the id is \<open>x\<close>, after the records \<open>pre\<close> and before the records \<open>post\<close>,
  each of start, updateProgress, complete, fail and skip rewrites \<open>x\<close> alone:
  \<open>pre\<close> and \<open>post\<close>, with any later record of the same id, are kept as they are.
\<close>

theorem duplicate_ids_first_match_only:
  "downloadQueue (AddToQueue i t a b s now g) =
     downloadQueue g @
       [\<lparr> ID = i, TrackName = t, ArtistName = a, AlbumName = b, SpotifyID = s,
          Status = StatusQueued, Progress = 0, TotalSize = 0, Speed = 0, StartTime = 0,
          EndTime = 0, ErrorMessage = [], FilePath = [] \<rparr>]
   \<and> length (filter (\<lambda>item. ID item = i) (downloadQueue (AddToQueue i t a b s now g)))
       = Suc (length (filter (\<lambda>item. ID item = i) (downloadQueue g)))
   \<and> (downloadQueue g = pre @ x # post \<and> i \<notin> ID ` set pre \<and> ID x = i \<longrightarrow>
        downloadQueue (StartDownloadItem i now g) =
          pre @ x\<lparr>Status := StatusDownloading, StartTime := now, Progress := 0\<rparr> # post
        \<and> downloadQueue (UpdateItemProgress i p v g) =
          pre @ x\<lparr>Progress := p, Speed := v\<rparr> # post
        \<and> downloadQueue (CompleteDownloadItem i fp z now g) =
          pre @ x\<lparr>Status := StatusCompleted, EndTime := now, FilePath := fp,
                    Progress := z, TotalSize := z\<rparr> # post
        \<and> downloadQueue (FailDownloadItem i m now g) =
          pre @ x\<lparr>Status := StatusFailed, EndTime := now, ErrorMessage := m\<rparr> # post
        \<and> downloadQueue (SkipDownloadItem i fp now g) =
          pre @ x\<lparr>Status := StatusSkipped, EndTime := now, FilePath := fp\<rparr> # post)"
  by (simp add: AddToQueue_def Let_def StartDownloadItem_def UpdateItemProgress_def
      downloadQueue_CompleteDownloadItem FailDownloadItem_def SkipDownloadItem_def
      scan_by_id_first)

theorem duplicate_ids_first_match_only_witness:
  "downloadQueue (example_globals [example_item ''a'' StatusQueued, example_item ''a'' StatusQueued])
     = [] @ example_item ''a'' StatusQueued # [example_item ''a'' StatusQueued]
   \<and> ''a'' \<notin> ID ` set []
   \<and> ID (example_item ''a'' StatusQueued) = ''a''
   \<and> length (downloadQueue (AddToQueue ''a'' ''Song'' ''Artist'' ''Album'' ''sid'' 1700000060
        (example_globals [example_item ''a'' StatusQueued, example_item ''a'' StatusQueued]))) = 3
   \<and> downloadQueue (StartDownloadItem ''a'' 1700000060
        (example_globals [example_item ''a'' StatusQueued, example_item ''a'' StatusQueued]))
      = [(example_item ''a'' StatusDownloading)\<lparr>StartTime := 1700000060\<rparr>,
         example_item ''a'' StatusQueued]
   \<and> downloadQueue (CompleteDownloadItem ''a'' ''/out/a.mp3'' 3 1700000060
        (example_globals [example_item ''a'' StatusQueued, example_item ''a'' StatusQueued]))
      = [(example_item ''a'' StatusCompleted)
           \<lparr>EndTime := 1700000060, FilePath := ''/out/a.mp3'', Progress := 3, TotalSize := 3\<rparr>,
         example_item ''a'' StatusQueued]"
  using duplicate_ids_first_match_only [of "''a''" "''Song''" "''Artist''" "''Album''" "''sid''"
      1700000060 "example_globals [example_item ''a'' StatusQueued, example_item ''a'' StatusQueued]"
      "[]" "example_item ''a'' StatusQueued" "[example_item ''a'' StatusQueued]"
      0 0 "''/out/a.mp3''" 3 "''''"]
  by (simp add: example_globals_def example_item_def)

section \<open>The session total\<close>

lemma matched_sizes_Cons:
  "matched_sizes (c # cs) g = matched_sizes [c] g @ matched_sizes cs (apply_call c g)"
  by (cases c) simp_all

lemma totalDownloaded_step:
  "\<not> is_reset c g \<Longrightarrow>
   totalDownloaded (apply_call c g) = foldl (+) (totalDownloaded g) (matched_sizes [c] g)"
  by (cases c)
    (simp_all add: AddToQueue_def Let_def StartDownloadItem_def UpdateItemProgress_def
      totalDownloaded_CompleteDownloadItem FailDownloadItem_def SkipDownloadItem_def
      CancelAllQueuedItems_def GetDownloadQueue_def ResetSessionIfComplete_def
      ClearDownloadQueue_def SetDownloading_def SetDownloadSpeed_def SetDownloadProgress_def
      case_prod_beta)

lemma totalDownloaded_reset:
  "is_reset c g \<Longrightarrow> totalDownloaded (apply_call c g) = 0"
  by (cases c)
    (simp_all add: ClearAllDownloads_def GetDownloadQueue_def ResetSessionIfComplete_def
      SetDownloadSpeed_def SetDownloadProgress_def Let_def case_prod_beta)

lemma totalDownloaded_run:
  "no_reset cs g \<Longrightarrow>
   totalDownloaded (run cs g) = foldl (+) (totalDownloaded g) (matched_sizes cs g)"
proof (induction cs arbitrary: g)
  case Nil
  then show ?case by simp
next
  case (Cons c cs)
  from Cons.prems have nr: "\<not> is_reset c g" and rest: "no_reset cs (apply_call c g)"
    by simp_all
  from Cons.IH [OF rest] totalDownloaded_step [OF nr]
  show ?case by (simp add: matched_sizes_Cons [of c cs g])
qed

text \<open>
  C4, as the code has it. A reset leaves \<open>totalDownloaded\<close> at 0. Over calls none
  of which is a reset, \<open>totalDownloaded\<close> grows by the \<open>finalSize\<close> arguments, added
  in call order, of the \<open>complete\<close> calls whose id was the ID of a record of the
  queue when they were made; so after a reset it is their sum. A \<open>complete\<close> call
  for an id that is in no record adds nothing. \<open>fail\<close> and \<open>skip\<close> leave
  \<open>totalDownloaded\<close> as it is.
\<close>

theorem totalDownloaded_since_reset:
  "(is_reset c g \<longrightarrow> totalDownloaded (apply_call c g) = 0)
   \<and> (no_reset cs g \<longrightarrow>
        totalDownloaded (run cs g) = foldl (+) (totalDownloaded g) (matched_sizes cs g))
   \<and> (is_reset c g \<and> no_reset cs (apply_call c g) \<longrightarrow>
        totalDownloaded (run (c # cs) g) = foldl (+) 0 (matched_sizes cs (apply_call c g)))
   \<and> totalDownloaded (FailDownloadItem i m now g) = totalDownloaded g
   \<and> totalDownloaded (SkipDownloadItem i fp now g) = totalDownloaded g"
proof (intro conjI impI)
  assume a: "is_reset c g \<and> no_reset cs (apply_call c g)"
  with totalDownloaded_run [of cs "apply_call c g"] totalDownloaded_reset [of c g]
  show "totalDownloaded (run (c # cs) g) = foldl (+) 0 (matched_sizes cs (apply_call c g))"
    by simp
qed (simp_all add: totalDownloaded_reset totalDownloaded_run FailDownloadItem_def
      SkipDownloadItem_def)

theorem totalDownloaded_since_reset_witness:
  "is_reset ClearAll (example_globals [example_item ''x'' StatusDownloading])
   \<and> no_reset
        [Enqueue ''a'' ''Song'' ''Artist'' ''Album'' ''sid'' 1700000100,
         Enqueue ''b'' ''Song'' ''Artist'' ''Album'' ''sid'' 1700000101,
         Start ''a'' 1700000102,
         Complete ''a'' ''/out/a.mp3'' 3.5 1700000110,
         Complete ''ghost'' ''/out/g.mp3'' 5 1700000111,
         Snapshot,
         Fail ''b'' ''timeout'' 1700000120,
         Complete ''b'' ''/out/b.mp3'' 1.5 1700000130]
        (apply_call ClearAll (example_globals [example_item ''x'' StatusDownloading]))
   \<and> totalDownloaded
        (run (ClearAll #
          [Enqueue ''a'' ''Song'' ''Artist'' ''Album'' ''sid'' 1700000100,
           Enqueue ''b'' ''Song'' ''Artist'' ''Album'' ''sid'' 1700000101,
           Start ''a'' 1700000102,
           Complete ''a'' ''/out/a.mp3'' 3.5 1700000110,
           Complete ''ghost'' ''/out/g.mp3'' 5 1700000111,
           Snapshot,
           Fail ''b'' ''timeout'' 1700000120,
           Complete ''b'' ''/out/b.mp3'' 1.5 1700000130])
          (example_globals [example_item ''x'' StatusDownloading])) = 5"
proof -
  let ?cs = "[Enqueue ''a'' ''Song'' ''Artist'' ''Album'' ''sid'' 1700000100,
         Enqueue ''b'' ''Song'' ''Artist'' ''Album'' ''sid'' 1700000101,
         Start ''a'' 1700000102,
         Complete ''a'' ''/out/a.mp3'' 3.5 1700000110,
         Complete ''ghost'' ''/out/g.mp3'' 5 1700000111,
         Snapshot,
         Fail ''b'' ''timeout'' 1700000120,
         Complete ''b'' ''/out/b.mp3'' 1.5 1700000130]"
  let ?g = "example_globals [example_item ''x'' StatusDownloading]"
  have r: "is_reset ClearAll ?g" by simp
  have n: "no_reset ?cs (apply_call ClearAll ?g)"
    by (simp add: example_globals_def ClearAllDownloads_def SetDownloadSpeed_def
        SetDownloadProgress_def AddToQueue_def Let_def StartDownloadItem_def
        CompleteDownloadItem_def GetDownloadQueue_def ResetSessionIfComplete_def
        FailDownloadItem_def)
  have m: "matched_sizes ?cs (apply_call ClearAll ?g) = [3.5, 1.5]"
    by (simp add: example_globals_def ClearAllDownloads_def SetDownloadSpeed_def
        SetDownloadProgress_def AddToQueue_def Let_def StartDownloadItem_def
        CompleteDownloadItem_def GetDownloadQueue_def ResetSessionIfComplete_def
        FailDownloadItem_def)
  from totalDownloaded_since_reset [of ClearAll ?g ?cs] r n
  have "totalDownloaded (run (ClearAll # ?cs) ?g)
          = foldl (+) 0 (matched_sizes ?cs (apply_call ClearAll ?g))"
    by blast
  then have "totalDownloaded (run (ClearAll # ?cs) ?g) = 5"
    unfolding m by simp
  with r n show ?thesis by blast
qed

text \<open>
  The claim as stated fails: after \<open>clearAll\<close> and one enqueue, a \<open>complete\<close> call
  with \<open>finalSize\<close> 3 for an id that is in no record leaves \<open>totalDownloaded\<close> at 0,
  while the \<open>finalSize\<close> arguments of the \<open>complete\<close> calls since the reset sum to 3.
\<close>

theorem totalDownloaded_every_complete_counterexample:
  "is_reset ClearAll (example_globals [])
   \<and> no_reset [Enqueue ''a'' ''Song'' ''Artist'' ''Album'' ''sid'' 1700000100,
                Complete ''b'' ''/out/b.mp3'' 3 1700000110]
        (apply_call ClearAll (example_globals []))
   \<and> complete_sizes [Enqueue ''a'' ''Song'' ''Artist'' ''Album'' ''sid'' 1700000100,
                      Complete ''b'' ''/out/b.mp3'' 3 1700000110] = [3]
   \<and> totalDownloaded
        (run [ClearAll, Enqueue ''a'' ''Song'' ''Artist'' ''Album'' ''sid'' 1700000100,
              Complete ''b'' ''/out/b.mp3'' 3 1700000110] (example_globals [])) = 0
   \<and> totalDownloaded
        (run [ClearAll, Enqueue ''a'' ''Song'' ''Artist'' ''Album'' ''sid'' 1700000100,
              Complete ''b'' ''/out/b.mp3'' 3 1700000110] (example_globals []))
       \<noteq> foldl (+) 0
           (complete_sizes [Enqueue ''a'' ''Song'' ''Artist'' ''Album'' ''sid'' 1700000100,
                            Complete ''b'' ''/out/b.mp3'' 3 1700000110])"
  by (simp add: example_globals_def ClearAllDownloads_def SetDownloadSpeed_def
      SetDownloadProgress_def AddToQueue_def Let_def CompleteDownloadItem_def)

end
